theory Spec2Isabelle
  imports Complex_Main
begin

section \<open>SVG Interpolator: curve tools and point generator\<close>

text \<open>
  A shallow embedding of \<^verbatim>\<open>src/paths.js\<close> and \<^verbatim>\<open>src/point-generator.js\<close>.

  Numbers. A JavaScript number is modelled as a real: arithmetic is exact, so rounding is
  outside the model. The non-finite values are written out where the code can produce
  them: a division by zero or an \<^verbatim>\<open>acos\<close> outside its domain makes the result of
  \<open>angleBetween\<close> and \<open>pointOnArc\<close> \<open>None\<close>, and the step \<^verbatim>\<open>1 / steps\<close> of
  \<open>getPoints\<close> is a \<open>jsnum\<close>, which has \<^verbatim>\<open>Infinity\<close>. In the arc branch of
  \<open>pointOnArc\<close> rounding decides whether \<^verbatim>\<open>Math.acos\<close> gets an argument inside its
  domain, so the lemmas about that branch are lemmas about exact arithmetic and are named
  so; they are not statements about the doubles the program computes.

  Objects. A point \<^verbatim>\<open>{x, y}\<close> is a value of the record \<open>point\<close> (fields \<open>px\<close>, \<open>py\<close>),
  and the methods of \<^verbatim>\<open>PointGenerator\<close> that mutate \<^verbatim>\<open>this\<close> take the generator and
  return the updated one. The objects held in \<^verbatim>\<open>this.points\<close> and \<^verbatim>\<open>this.center\<close> are
  taken to be pairwise distinct objects, as the constructor and the evaluators create them.
\<close>

subsection \<open>Data\<close>

record point =
  px :: real
  py :: real

text \<open>
  The value of \<^verbatim>\<open>1 / steps\<close> and of the loop variable of \<open>getPoints\<close>: a finite
  number or \<^verbatim>\<open>Infinity\<close>.
\<close>

datatype jsnum = Num real | PosInfinity

text \<open>An entry \<^verbatim>\<open>{t, arcLength}\<close> of the arc-length map.\<close>

record entry =
  entry_t :: real
  entry_arcLength :: real

text \<open>The object returned by \<^verbatim>\<open>approximateArcLengthOfCurve\<close>.\<close>

record approximation =
  arcLength :: real
  arcLengthMap :: "entry list"
  approximationLines :: "(point \<times> point) list"

text \<open>
  The values that steps 1 to 4 of \<^verbatim>\<open>pointOnArc\<close> compute: the radii after the
  out-of-range correction, the center, the start angle and the sweep angle.
\<close>

record arc_params =
  arc_rx :: real
  arc_ry :: real
  arc_center :: point
  arc_startAngle :: real
  arc_sweepAngle :: real

text \<open>The extra fields that the arc branch of \<^verbatim>\<open>pointOnArc\<close> attaches to its point.\<close>

record arc_info =
  ellipticalArcStartAngle :: real
  ellipticalArcEndAngle :: real
  ellipticalArcAngle :: real
  ellipticalArcCenter :: point
  resultantRx :: real
  resultantRy :: real

text \<open>The fields of a \<^verbatim>\<open>PointGenerator\<close>, as its constructor sets them.\<close>

record generator =
  res :: nat
  len :: real
  points :: "point list"
  center :: point

text \<open>The object returned by \<^verbatim>\<open>bbox\<close>: \<^verbatim>\<open>{x, y, width, height}\<close>.\<close>

record bbox_result =
  bbox_x :: real
  bbox_y :: real
  bbox_width :: real
  bbox_height :: real

text \<open>Reading a property of \<^verbatim>\<open>undefined\<close> throws a \<^verbatim>\<open>TypeError\<close>.\<close>

datatype error = TypeError

subsection \<open>paths.js: helpers\<close>

definition distance :: "point \<Rightarrow> point \<Rightarrow> real" where
  "distance p0 p1 = sqrt ((px p1 - px p0)\<^sup>2 + (py p1 - py p0)\<^sup>2)"

text \<open>
  The operator \<^verbatim>\<open>%\<close> on finite numbers with a divisor other than zero: the remainder
  has the sign of the dividend, \<open>x - m * trunc (x / m)\<close>. The code divides by \<open>360\<close>
  and by \<open>2 * pi\<close> only.
\<close>

definition js_trunc :: "real \<Rightarrow> int" where
  "js_trunc v = (if 0 \<le> v then \<lfloor>v\<rfloor> else \<lceil>v\<rceil>)"

definition js_rem :: "real \<Rightarrow> real \<Rightarrow> real" where
  "js_rem v m = v - m * of_int (js_trunc (v / m))"

text \<open>\<^verbatim>\<open>mod(x, m)\<close> of the source.\<close>

definition mod_js :: "real \<Rightarrow> real \<Rightarrow> real" where
  "mod_js v m = js_rem (js_rem v m + m) m"

definition toRadians :: "real \<Rightarrow> real" where
  "toRadians angle = angle * (pi / 180)"

text \<open>
  \<^verbatim>\<open>Math.acos(p / n)\<close> is \<^verbatim>\<open>NaN\<close> when \<open>n\<close> is zero (then \<open>p\<close> is zero too) and when
  the quotient is outside \<open>[-1, 1]\<close>: the result is \<open>None\<close> there.
\<close>

definition angleBetween :: "point \<Rightarrow> point \<Rightarrow> real option" where
  "angleBetween v0 v1 =
     (let p = px v0 * px v1 + py v0 * py v1;
          n = sqrt (((px v0)\<^sup>2 + (py v0)\<^sup>2) * ((px v1)\<^sup>2 + (py v1)\<^sup>2));
          sign = (if px v0 * py v1 - py v0 * px v1 < 0 then - 1 else 1)
      in if n = 0 \<or> p / n < - 1 \<or> 1 < p / n then None
         else Some (sign * arccos (p / n)))"

definition clamp :: "real \<Rightarrow> real \<Rightarrow> real \<Rightarrow> real" where
  "clamp val lo hi = min (max val lo) hi"

subsection \<open>paths.js: curve evaluators\<close>

definition calculateLineParameter :: "real \<Rightarrow> real \<Rightarrow> real \<Rightarrow> real" where
  "calculateLineParameter x0 x1 t = x0 + (x1 - x0) * t"

definition pointOnLine :: "point \<Rightarrow> point \<Rightarrow> real \<Rightarrow> point" where
  "pointOnLine p0 p1 t =
     \<lparr>px = calculateLineParameter (px p0) (px p1) t,
      py = calculateLineParameter (py p0) (py p1) t\<rparr>"

definition calculateQuadraticBezierParameter :: "real \<Rightarrow> real \<Rightarrow> real \<Rightarrow> real \<Rightarrow> real" where
  "calculateQuadraticBezierParameter x0 x1 x2 t =
     (1 - t)\<^sup>2 * x0 + 2 * t * (1 - t) * x1 + t\<^sup>2 * x2"

definition pointOnQuadraticBezier :: "point \<Rightarrow> point \<Rightarrow> point \<Rightarrow> real \<Rightarrow> point" where
  "pointOnQuadraticBezier p0 p1 p2 t =
     \<lparr>px = calculateQuadraticBezierParameter (px p0) (px p1) (px p2) t,
      py = calculateQuadraticBezierParameter (py p0) (py p1) (py p2) t\<rparr>"

definition calculateCubicBezierParameter ::
  "real \<Rightarrow> real \<Rightarrow> real \<Rightarrow> real \<Rightarrow> real \<Rightarrow> real" where
  "calculateCubicBezierParameter x0 x1 x2 x3 t =
     (1 - t) ^ 3 * x0 + 3 * t * (1 - t)\<^sup>2 * x1 + 3 * (1 - t) * t\<^sup>2 * x2 + t ^ 3 * x3"

definition pointOnCubicBezierCurve ::
  "point \<Rightarrow> point \<Rightarrow> point \<Rightarrow> point \<Rightarrow> real \<Rightarrow> point" where
  "pointOnCubicBezierCurve p0 p1 p2 p3 t =
     \<lparr>px = calculateCubicBezierParameter (px p0) (px p1) (px p2) (px p3) t,
      py = calculateCubicBezierParameter (py p0) (py p1) (py p2) (py p3) t\<rparr>"

subsection \<open>paths.js: pointOnArc\<close>

text \<open>
  Lines 104 to 161 of \<^verbatim>\<open>pointOnArc\<close>, the conversion from endpoint to center
  parameterization, on the radii \<open>rx\<close>, \<open>ry\<close> after \<^verbatim>\<open>Math.abs\<close> and the rotation
  \<open>phi\<close> in radians. \<open>pointOnArc\<close> reaches it with \<open>rx\<close> and \<open>ry\<close> other than
  zero only, so the divisions by the radii are divisions by numbers other than zero. A
  \<^verbatim>\<open>cSquareRootDenom\<close> of zero makes \<^verbatim>\<open>cRadicand\<close> infinite or \<^verbatim>\<open>NaN\<close>: the
  result is \<open>None\<close>.
\<close>

definition arcParameters ::
  "point \<Rightarrow> real \<Rightarrow> real \<Rightarrow> real \<Rightarrow> bool \<Rightarrow> bool \<Rightarrow> point \<Rightarrow> arc_params option" where
  "arcParameters p0 rx ry phi largeArcFlag sweepFlag p1 =
     (let dx = (px p0 - px p1) / 2;
          dy = (py p0 - py p1) / 2;
          tx = cos phi * dx + sin phi * dy;
          ty = - sin phi * dx + cos phi * dy;
          radiiCheck = tx\<^sup>2 / rx\<^sup>2 + ty\<^sup>2 / ry\<^sup>2;
          rx2 = (if radiiCheck > 1 then sqrt radiiCheck * rx else rx);
          ry2 = (if radiiCheck > 1 then sqrt radiiCheck * ry else ry);
          cSquareNumerator = rx2\<^sup>2 * ry2\<^sup>2 - rx2\<^sup>2 * ty\<^sup>2 - ry2\<^sup>2 * tx\<^sup>2;
          cSquareRootDenom = rx2\<^sup>2 * ty\<^sup>2 + ry2\<^sup>2 * tx\<^sup>2
      in if cSquareRootDenom = 0 then None
         else
           (let cRadicand0 = cSquareNumerator / cSquareRootDenom;
                cRadicand = (if cRadicand0 < 0 then 0 else cRadicand0);
                cCoef = (if largeArcFlag \<noteq> sweepFlag then 1 else - 1) * sqrt cRadicand;
                cx = cCoef * ((rx2 * ty) / ry2);
                cy = cCoef * (- (ry2 * tx) / rx2);
                center0 = \<lparr>px = cos phi * cx - sin phi * cy + (px p0 + px p1) / 2,
                           py = sin phi * cx + cos phi * cy + (py p0 + py p1) / 2\<rparr>;
                startVector = \<lparr>px = (tx - cx) / rx2, py = (ty - cy) / ry2\<rparr>;
                endVector = \<lparr>px = (- tx - cx) / rx2, py = (- ty - cy) / ry2\<rparr>
            in case angleBetween \<lparr>px = 1, py = 0\<rparr> startVector of
                 None \<Rightarrow> None
               | Some startAngle \<Rightarrow>
                   (case angleBetween startVector endVector of
                      None \<Rightarrow> None
                    | Some sweep0 \<Rightarrow>
                        (let sweep1 =
                               (if \<not> sweepFlag \<and> sweep0 > 0 then sweep0 - 2 * pi
                                else if sweepFlag \<and> sweep0 < 0 then sweep0 + 2 * pi
                                else sweep0);
                             sweepAngle = js_rem sweep1 (2 * pi)
                         in Some \<lparr>arc_rx = rx2, arc_ry = ry2, arc_center = center0,
                                   arc_startAngle = startAngle,
                                   arc_sweepAngle = sweepAngle\<rparr>))))"

text \<open>The value of the variable \<^verbatim>\<open>radiiCheck\<close> (lines 105 to 112), on the same arguments.\<close>

definition arcRadiiCheck :: "point \<Rightarrow> real \<Rightarrow> real \<Rightarrow> real \<Rightarrow> point \<Rightarrow> real" where
  "arcRadiiCheck p0 rx ry phi p1 =
     (let dx = (px p0 - px p1) / 2;
          dy = (py p0 - py p1) / 2;
          tx = cos phi * dx + sin phi * dy;
          ty = - sin phi * dx + cos phi * dy
      in tx\<^sup>2 / rx\<^sup>2 + ty\<^sup>2 / ry\<^sup>2)"

text \<open>
  The result is the point and, in the arc branch, the fields attached to it; \<open>None\<close>
  when the arc branch has no finite result.
\<close>

definition pointOnArc ::
  "point \<Rightarrow> real \<Rightarrow> real \<Rightarrow> real \<Rightarrow> bool \<Rightarrow> bool \<Rightarrow> point \<Rightarrow> real
     \<Rightarrow> (point \<times> arc_info option) option" where
  "pointOnArc p0 rx0 ry0 xAxisRotation0 largeArcFlag sweepFlag p1 t =
     (let rx = \<bar>rx0\<bar>;
          ry = \<bar>ry0\<bar>;
          xAxisRotation = mod_js xAxisRotation0 360;
          xAxisRotationRadians = toRadians xAxisRotation
      in if px p0 = px p1 \<and> py p0 = py p1 then Some (p0, None)
         else if rx = 0 \<or> ry = 0 then Some (pointOnLine p0 p1 t, None)
         else
           (case arcParameters p0 rx ry xAxisRotationRadians largeArcFlag sweepFlag p1 of
              None \<Rightarrow> None
            | Some a \<Rightarrow>
                (let angle = arc_startAngle a + arc_sweepAngle a * t;
                     ellipseComponentX = arc_rx a * cos angle;
                     ellipseComponentY = arc_ry a * sin angle;
                     pt = \<lparr>px = cos xAxisRotationRadians * ellipseComponentX
                                  - sin xAxisRotationRadians * ellipseComponentY
                                  + px (arc_center a),
                            py = sin xAxisRotationRadians * ellipseComponentX
                                  + cos xAxisRotationRadians * ellipseComponentY
                                  + py (arc_center a)\<rparr>
                 in Some (pt,
                      Some \<lparr>ellipticalArcStartAngle = arc_startAngle a,
                            ellipticalArcEndAngle = arc_startAngle a + arc_sweepAngle a,
                            ellipticalArcAngle = angle,
                            ellipticalArcCenter = arc_center a,
                            resultantRx = arc_rx a,
                            resultantRy = arc_ry a\<rparr>))))"

subsection \<open>paths.js: arc length and point emission\<close>

text \<open>
  One round of the loop of \<^verbatim>\<open>approximateArcLengthOfCurve\<close> on
  \<open>(prevPoint, resultantArcLength, arcLengthMap, approximationLines)\<close>.
\<close>

fun approximate_step ::
  "nat \<Rightarrow> (real \<Rightarrow> point) \<Rightarrow> point \<times> real \<times> entry list \<times> (point \<times> point) list \<Rightarrow> nat
     \<Rightarrow> point \<times> real \<times> entry list \<times> (point \<times> point) list" where
  "approximate_step resolution pointOnCurveFunc (prevPoint, resultantArcLength, amap, lines) i =
     (let t = clamp (real i * (1 / real resolution)) 0 1;
          nextPoint = pointOnCurveFunc t;
          total = resultantArcLength + distance prevPoint nextPoint
      in (nextPoint, total, amap @ [\<lparr>entry_t = t, entry_arcLength = total\<rparr>],
          lines @ [(prevPoint, nextPoint)]))"

text \<open>A resolution of \<open>0\<close> is falsy and replaced by \<open>500\<close>.\<close>

definition approximateArcLengthOfCurve :: "nat \<Rightarrow> (real \<Rightarrow> point) \<Rightarrow> approximation" where
  "approximateArcLengthOfCurve resolution0 pointOnCurveFunc =
     (let resolution = (if resolution0 \<noteq> 0 then resolution0 else 500)
      in case foldl (approximate_step resolution pointOnCurveFunc)
                (pointOnCurveFunc 0, 0, [], []) [0..<resolution] of
           (prevPoint, resultantArcLength, amap, lines) \<Rightarrow>
             (let nextPoint = pointOnCurveFunc 1;
                  total = resultantArcLength + distance prevPoint nextPoint
              in \<lparr>arcLength = total,
                  arcLengthMap = amap @ [\<lparr>entry_t = 1, entry_arcLength = total\<rparr>],
                  approximationLines = lines @ [(prevPoint, nextPoint)]\<rparr>))"

text \<open>
  \<^verbatim>\<open>Math.floor(arcLength / len)\<close>. For \<open>len > 0\<close> the quotient is finite and not
  negative, and its floor is a natural number; other values of \<open>len\<close> are outside this
  model.
\<close>

definition nsteps :: "(real \<Rightarrow> point) \<Rightarrow> nat \<Rightarrow> real \<Rightarrow> nat" where
  "nsteps curveFn resolution length0 =
     nat \<lfloor>arcLength (approximateArcLengthOfCurve resolution curveFn) / length0\<rfloor>"

text \<open>\<^verbatim>\<open>1 / steps\<close>: division by zero gives \<^verbatim>\<open>Infinity\<close>.\<close>

definition js_recip :: "nat \<Rightarrow> jsnum" where
  "js_recip steps = (if steps = 0 then PosInfinity else Num (1 / real steps))"

fun js_add :: "jsnum \<Rightarrow> jsnum \<Rightarrow> jsnum" where
  "js_add (Num a) (Num b) = Num (a + b)"
| "js_add _ _ = PosInfinity"

text \<open>
  The loop \<^verbatim>\<open>for (let i = 0, t = 1 / steps; i <= 1; i += t) pts.push(pointFn(i))\<close>.
  It need not end for every step \<open>t\<close>, so it is a partial function: \<open>None\<close> is a loop
  that runs forever.
\<close>

partial_function (option) getPoints_loop ::
  "(real \<Rightarrow> 'a) \<Rightarrow> jsnum \<Rightarrow> jsnum \<Rightarrow> 'a list \<Rightarrow> 'a list option" where
  "getPoints_loop pointFn t i pts =
     (case i of
        Num r \<Rightarrow>
          (if r \<le> 1 then getPoints_loop pointFn t (js_add i t) (pts @ [pointFn r])
           else Some pts)
      | PosInfinity \<Rightarrow> Some pts)"

definition getPoints :: "(real \<Rightarrow> 'a) \<Rightarrow> nat \<Rightarrow> 'a list option" where
  "getPoints pointFn steps = getPoints_loop pointFn (js_recip steps) (Num 0) []"

text \<open>\<^verbatim>\<open>pointsForLine\<close>, for a spacing \<open>len > 0\<close>.\<close>

definition pointsForLine :: "point \<Rightarrow> point \<Rightarrow> real \<Rightarrow> point list option" where
  "pointsForLine start end0 length0 =
     (let lineFn = pointOnLine start end0;
          length1 = distance start end0;
          steps = nat \<lfloor>length1 / length0\<rfloor>
      in getPoints lineFn steps)"

subsection \<open>point-generator.js\<close>

definition constructor :: "nat \<Rightarrow> real \<Rightarrow> generator" where
  "constructor resolution length0 =
     \<lparr>res = resolution, len = length0, points = [], center = \<lparr>px = 0, py = 0\<rparr>\<rparr>"

definition scale :: "real \<Rightarrow> generator \<Rightarrow> generator" where
  "scale amt g =
     g\<lparr>points := map (\<lambda>p. p\<lparr>px := px p * amt, py := py p * amt\<rparr>) (points g)\<rparr>"

definition translate :: "real \<Rightarrow> real \<Rightarrow> generator \<Rightarrow> generator" where
  "translate dx dy g =
     g\<lparr>center := (center g)\<lparr>px := px (center g) + dx, py := py (center g) + dy\<rparr>,
       points := map (\<lambda>p. p\<lparr>px := px p + dx, py := py p + dy\<rparr>) (points g)\<rparr>"

text \<open>The body of the \<^verbatim>\<open>forEach\<close> of \<^verbatim>\<open>bbox\<close> on \<open>(xmin, xmax, ymin, ymax)\<close>.\<close>

fun bbox_step :: "real \<times> real \<times> real \<times> real \<Rightarrow> point \<Rightarrow> real \<times> real \<times> real \<times> real" where
  "bbox_step (xmin, xmax, ymin, ymax) p =
     (if px p < xmin then px p else xmin,
      if px p > xmax then px p else xmax,
      if py p < ymin then py p else ymin,
      if py p > ymax then py p else ymax)"

text \<open>
  \<^verbatim>\<open>const first = this.points[0]\<close> is \<^verbatim>\<open>undefined\<close> on an empty array, and
  \<^verbatim>\<open>first.x\<close> then throws.
\<close>

definition bbox :: "generator \<Rightarrow> error + bbox_result" where
  "bbox g =
     (case points g of
        [] \<Rightarrow> Inl TypeError
      | first # _ \<Rightarrow>
          (case foldl bbox_step (px first, px first, py first, py first) (points g) of
             (xmin, xmax, ymin, ymax) \<Rightarrow>
               Inr \<lparr>bbox_x = xmin, bbox_y = ymin,
                    bbox_width = xmax - xmin, bbox_height = ymax - ymin\<rparr>))"

definition recenter :: "generator \<Rightarrow> error + generator" where
  "recenter g =
     (case bbox g of
        Inl e \<Rightarrow> Inl e
      | Inr b \<Rightarrow>
          (let xshift = bbox_x b + bbox_width b / 2;
               yshift = bbox_y b + bbox_height b / 2
           in Inr (g\<lparr>points := map (\<lambda>p. p\<lparr>px := px p - xshift, py := py p - yshift\<rparr>)
                                   (points g)\<rparr>)))"

definition qdist :: "point \<Rightarrow> point \<Rightarrow> real" where
  "qdist p1 p2 = (px p2 - px p1)\<^sup>2 + (py p2 - py p1)\<^sup>2"

text \<open>
  The nested \<^verbatim>\<open>forEach\<close> of \<^verbatim>\<open>clean\<close>: the pairs \<^verbatim>\<open>{p1: idx1, p2: idx2}\<close> of
  indices of points that are too close, in the order they are pushed.
\<close>

definition close_pairs :: "real \<Rightarrow> point list \<Rightarrow> (nat \<times> nat) list" where
  "close_pairs minDist ps =
     concat (map (\<lambda>(idx1, p1).
       concat (map (\<lambda>(idx2, p2).
         if idx1 \<noteq> idx2 \<and> qdist p1 p2 < minDist then [(idx1, idx2)] else [])
         (enumerate 0 ps)))
       (enumerate 0 ps))"

text \<open>The function given to \<^verbatim>\<open>reduce\<close>: \<open>p\<close> is the list of indices to remove.\<close>

definition remove_step :: "nat list \<Rightarrow> nat \<times> nat \<Rightarrow> nat list" where
  "remove_step p c = (if fst c \<in> set p \<or> snd c \<in> set p then p else p @ [snd c])"

definition clean :: "generator \<Rightarrow> point list \<Rightarrow> real \<Rightarrow> point list" where
  "clean g ps tolerance =
     (let minDist = (len g - tolerance)\<^sup>2;
          pairs = close_pairs minDist ps;
          removed = foldl remove_step [] pairs
      in map snd (filter (\<lambda>(idx, p). idx \<notin> set removed) (enumerate 0 ps)))"

section \<open>Properties\<close>


subsection \<open>scale\<close>

text \<open>
  C10. For every factor \<open>amt\<close>, \<open>scale\<close> multiplies the coordinates of each point by
  \<open>amt\<close>, keeps the number and the order of the points, and changes no other field of the
  generator: \<open>res\<close>, \<open>len\<close> and the tracked \<open>center\<close> are what they were.
\<close>

theorem scale_frame:
  "res (scale amt g) = res g \<and> len (scale amt g) = len g \<and>
   center (scale amt g) = center g \<and>
   points (scale amt g) = map (\<lambda>p. \<lparr>px = px p * amt, py = py p * amt\<rparr>) (points g) \<and>
   length (points (scale amt g)) = length (points g)"
  by (simp add: scale_def)


text \<open>\<open>translate\<close> is the method that moves the tracked center.\<close>

lemma translate_center:
  "center (translate dx dy g) = \<lparr>px = px (center g) + dx, py = py (center g) + dy\<rparr> \<and>
   points (translate dx dy g) = map (\<lambda>p. \<lparr>px = px p + dx, py = py p + dy\<rparr>) (points g)"
  by (simp add: translate_def)

subsection \<open>bbox and recenter\<close>

text \<open>
  C9. On a generator with no points, \<open>bbox\<close> and \<open>recenter\<close> fail with the
  \<^verbatim>\<open>TypeError\<close> of reading \<^verbatim>\<open>first.x\<close>: no bounding box and no generator is returned.
\<close>

theorem bbox_recenter_empty:
  "points g = [] \<Longrightarrow> bbox g = Inl TypeError \<and> recenter g = Inl TypeError"
  by (simp add: bbox_def recenter_def)

theorem bbox_recenter_empty_witness:
  "points (constructor 1000 10) = [] \<and>
   bbox (constructor 1000 10) = Inl TypeError \<and>
   recenter (constructor 1000 10) = Inl TypeError"
proof -
  have e: "points (constructor 1000 10) = []"
    by (simp add: constructor_def)
  from bbox_recenter_empty [OF e] e show ?thesis by blast
qed

text \<open>Shifting every point shifts the four bounds that the loop of \<open>bbox\<close> keeps.\<close>

lemma bbox_step_shift:
  "bbox_step (a - s, b - s, c - u, d - u) \<lparr>px = px p - s, py = py p - u\<rparr> =
     (case bbox_step (a, b, c, d) p of
        (a', b', c', d') \<Rightarrow> (a' - s, b' - s, c' - u, d' - u))"
  by simp

lemma foldl_bbox_step_shift:
  "foldl bbox_step (a - s, b - s, c - u, d - u)
     (map (\<lambda>p. \<lparr>px = px p - s, py = py p - u\<rparr>) ps) =
     (case foldl bbox_step (a, b, c, d) ps of
        (a', b', c', d') \<Rightarrow> (a' - s, b' - s, c' - u, d' - u))"
proof (induction ps arbitrary: a b c d)
  case Nil
  show ?case by simp
next
  case (Cons p ps)
  show ?case
    by (simp only: list.map foldl_Cons bbox_step_shift Cons.IH split: prod.splits) simp
qed

text \<open>
  C8. On a generator with at least one point, \<open>recenter\<close> succeeds; in its result the
  center of the bounding box is the origin, so a second \<open>recenter\<close> shifts by \<open>(0, 0)\<close>
  and returns the same generator.
\<close>

theorem recenter_idempotent:
  assumes "points g \<noteq> []"
  shows "\<exists>g1 b. recenter g = Inr g1 \<and> bbox g1 = Inr b \<and>
           bbox_x b + bbox_width b / 2 = 0 \<and> bbox_y b + bbox_height b / 2 = 0 \<and>
           recenter g1 = Inr g1"
proof -
  from assms obtain first rest where ps: "points g = first # rest"
    by (cases "points g") auto
  obtain xmin xmax ymin ymax where
    f: "foldl bbox_step (px first, px first, py first, py first) (points g) =
          (xmin, xmax, ymin, ymax)"
    by (cases "foldl bbox_step (px first, px first, py first, py first) (points g)") auto
  define xs where "xs = xmin + (xmax - xmin) / 2"
  define ys where "ys = ymin + (ymax - ymin) / 2"
  define g1 where
    "g1 = g\<lparr>points := map (\<lambda>p. \<lparr>px = px p - xs, py = py p - ys\<rparr>) (points g)\<rparr>"
  define b where
    "b = \<lparr>bbox_x = xmin - xs, bbox_y = ymin - ys,
          bbox_width = xmax - xmin, bbox_height = ymax - ymin\<rparr>"
  have r1: "recenter g = Inr g1"
    using ps f by (simp add: recenter_def bbox_def g1_def xs_def ys_def Let_def)
  have f1: "foldl bbox_step (px first - xs, px first - xs, py first - ys, py first - ys)
              (points g1) = (xmin - xs, xmax - xs, ymin - ys, ymax - ys)"
    unfolding g1_def
    using foldl_bbox_step_shift [of "px first" xs "px first" "py first" ys "py first" "points g"] f
    by simp
  have p1: "points g1 = \<lparr>px = px first - xs, py = py first - ys\<rparr> #
              map (\<lambda>p. \<lparr>px = px p - xs, py = py p - ys\<rparr>) rest"
    by (simp add: g1_def ps)
  have b1: "bbox g1 = Inr b"
    using f1 unfolding bbox_def p1 [symmetric] b_def by (simp add: p1 split: prod.splits)
  have z: "bbox_x b + bbox_width b / 2 = 0" "bbox_y b + bbox_height b / 2 = 0"
    by (simp_all add: b_def xs_def ys_def)
  have "recenter g1 = Inr g1"
    unfolding recenter_def b1 by (simp add: Let_def z map_idI)
  with r1 b1 z show ?thesis by blast
qed

theorem recenter_idempotent_witness:
  "points ((constructor 1000 10)\<lparr>points := [\<lparr>px = 0, py = 0\<rparr>, \<lparr>px = 10, py = 4\<rparr>]\<rparr>) \<noteq> [] \<and>
   (\<exists>g1 b. recenter ((constructor 1000 10)\<lparr>points := [\<lparr>px = 0, py = 0\<rparr>, \<lparr>px = 10, py = 4\<rparr>]\<rparr>)
              = Inr g1 \<and>
            bbox g1 = Inr b \<and>
            bbox_x b + bbox_width b / 2 = 0 \<and> bbox_y b + bbox_height b / 2 = 0 \<and>
            recenter g1 = Inr g1)"
proof -
  have ne: "points ((constructor 1000 10)\<lparr>points := [\<lparr>px = 0, py = 0\<rparr>, \<lparr>px = 10, py = 4\<rparr>]\<rparr>) \<noteq> []"
    by simp
  from recenter_idempotent [OF ne] ne show ?thesis by blast
qed

subsection \<open>clean\<close>

text \<open>The removal list only grows, and it covers every pair that the scan has seen.\<close>

lemma remove_step_keeps: "set acc \<subseteq> set (foldl remove_step acc cs)"
proof (induction cs arbitrary: acc)
  case Nil
  show ?case by simp
next
  case (Cons c cs)
  have "set acc \<subseteq> set (remove_step acc c)"
    by (auto simp: remove_step_def)
  also have "\<dots> \<subseteq> set (foldl remove_step (remove_step acc c) cs)"
    by (rule Cons.IH)
  finally show ?case by simp
qed

lemma remove_step_covers:
  "c \<in> set cs \<Longrightarrow> fst c \<in> set (foldl remove_step acc cs) \<or> snd c \<in> set (foldl remove_step acc cs)"
proof (induction cs arbitrary: acc)
  case Nil
  then show ?case by simp
next
  case (Cons d cs)
  show ?case
  proof (cases "c = d")
    case True
    have "fst c \<in> set (remove_step acc c) \<or> snd c \<in> set (remove_step acc c)"
      by (auto simp: remove_step_def)
    with remove_step_keeps[of "remove_step acc c" cs] True show ?thesis
      by auto
  next
    case False
    with Cons.prems have "c \<in> set cs" by simp
    from Cons.IH[OF this, of "remove_step acc d"] show ?thesis by simp
  qed
qed

lemma enumerate_nth: "enumerate 0 ps = map (\<lambda>i. (i, ps ! i)) [0..<length ps]"
  by (rule nth_equalityI) (simp_all add: nth_enumerate_eq)

lemma close_pairs_nth:
  "close_pairs m ps =
     concat (map (\<lambda>i. concat (map (\<lambda>j.
       if i \<noteq> j \<and> qdist (ps ! i) (ps ! j) < m then [(i, j)] else []) [0..<length ps]))
       [0..<length ps])"
  unfolding close_pairs_def enumerate_nth by (simp add: comp_def)

lemma in_close_pairs:
  "(i, j) \<in> set (close_pairs m ps) \<longleftrightarrow>
     i < length ps \<and> j < length ps \<and> i \<noteq> j \<and> qdist (ps ! i) (ps ! j) < m"
  unfolding close_pairs_nth by (auto split: if_splits)

lemma kept_points:
  "map snd (filter (\<lambda>(idx, p). idx \<notin> R) (enumerate 0 ps)) =
     map (\<lambda>i. ps ! i) (filter (\<lambda>i. i \<notin> R) [0..<length ps])"
  unfolding enumerate_nth by (simp add: filter_map comp_def)

lemma distance_qdist: "distance p q < d \<Longrightarrow> qdist p q < d\<^sup>2"
proof -
  assume a: "distance p q < d"
  have q0: "0 \<le> qdist p q" by (simp add: qdist_def)
  have "distance p q = sqrt (qdist p q)" by (simp add: distance_def qdist_def)
  with a have "sqrt (qdist p q) < d" by simp
  moreover have "0 \<le> sqrt (qdist p q)" using q0 by simp
  ultimately have "(sqrt (qdist p q))\<^sup>2 < d\<^sup>2"
    by (intro power_strict_mono) auto
  with q0 show ?thesis by simp
qed

lemma clean_no_close_pair:
  assumes "i < length (clean g ps tol)" "j < length (clean g ps tol)" "i \<noteq> j"
  shows "\<not> qdist (clean g ps tol ! i) (clean g ps tol ! j) < (len g - tol)\<^sup>2"
proof
  define m where "m = (len g - tol)\<^sup>2"
  define R where "R = set (foldl remove_step [] (close_pairs m ps))"
  define ks where "ks = filter (\<lambda>i. i \<notin> R) [0..<length ps]"
  have out: "clean g ps tol = map (\<lambda>i. ps ! i) ks"
    by (simp add: clean_def Let_def kept_points m_def R_def ks_def)
  assume "qdist (clean g ps tol ! i) (clean g ps tol ! j) < (len g - tol)\<^sup>2"
  with assms out have lt: "i < length ks" "j < length ks"
    and q: "qdist (ps ! (ks ! i)) (ps ! (ks ! j)) < m"
    by (simp_all add: m_def)
  have d: "distinct ks" by (simp add: ks_def)
  with lt \<open>i \<noteq> j\<close> have ne: "ks ! i \<noteq> ks ! j"
    by (simp add: nth_eq_iff_index_eq)
  have "ks ! i \<in> set ks" "ks ! j \<in> set ks" using lt by simp_all
  then have k: "ks ! i < length ps" "ks ! j < length ps" "ks ! i \<notin> R" "ks ! j \<notin> R"
    by (simp_all add: ks_def)
  from k(1,2) ne q have "(ks ! i, ks ! j) \<in> set (close_pairs m ps)"
    by (simp add: in_close_pairs)
  from remove_step_covers[OF this, of "[]"] have "ks ! i \<in> R \<or> ks ! j \<in> R"
    by (simp add: R_def)
  with k(3,4) show False by blast
qed

text \<open>
  C2. In the output of \<open>clean\<close>, no two points at different positions have a squared
  distance below \<open>(len - tolerance)\<^sup>2\<close>, and so none have a distance below
  \<open>len - tolerance\<close>.
\<close>

theorem clean_min_spacing:
  "\<forall>i j. i < length (clean g ps tol) \<and> j < length (clean g ps tol) \<and> i \<noteq> j \<longrightarrow>
     \<not> qdist (clean g ps tol ! i) (clean g ps tol ! j) < (len g - tol)\<^sup>2 \<and>
     \<not> distance (clean g ps tol ! i) (clean g ps tol ! j) < len g - tol"
  using clean_no_close_pair distance_qdist by blast

theorem clean_min_spacing_witness:
  "clean \<lparr>res = 10, len = 2, points = [], center = \<lparr>px = 0, py = 0\<rparr>\<rparr> [\<lparr>px = 0, py = 0\<rparr>, \<lparr>px = 1, py = 0\<rparr>, \<lparr>px = 5, py = 0\<rparr>] 0 = [\<lparr>px = 0, py = 0\<rparr>, \<lparr>px = 5, py = 0\<rparr>] \<and>
   (0 < length (clean \<lparr>res = 10, len = 2, points = [], center = \<lparr>px = 0, py = 0\<rparr>\<rparr> [\<lparr>px = 0, py = 0\<rparr>, \<lparr>px = 1, py = 0\<rparr>, \<lparr>px = 5, py = 0\<rparr>] 0) \<and> 1 < length (clean \<lparr>res = 10, len = 2, points = [], center = \<lparr>px = 0, py = 0\<rparr>\<rparr> [\<lparr>px = 0, py = 0\<rparr>, \<lparr>px = 1, py = 0\<rparr>, \<lparr>px = 5, py = 0\<rparr>] 0) \<and> (0::nat) \<noteq> 1) \<and>
   \<not> qdist (clean \<lparr>res = 10, len = 2, points = [], center = \<lparr>px = 0, py = 0\<rparr>\<rparr> [\<lparr>px = 0, py = 0\<rparr>, \<lparr>px = 1, py = 0\<rparr>, \<lparr>px = 5, py = 0\<rparr>] 0 ! 0) (clean \<lparr>res = 10, len = 2, points = [], center = \<lparr>px = 0, py = 0\<rparr>\<rparr> [\<lparr>px = 0, py = 0\<rparr>, \<lparr>px = 1, py = 0\<rparr>, \<lparr>px = 5, py = 0\<rparr>] 0 ! 1) < (len \<lparr>res = 10, len = 2, points = [], center = \<lparr>px = 0, py = 0\<rparr>\<rparr> - 0)\<^sup>2 \<and>
   \<not> distance (clean \<lparr>res = 10, len = 2, points = [], center = \<lparr>px = 0, py = 0\<rparr>\<rparr> [\<lparr>px = 0, py = 0\<rparr>, \<lparr>px = 1, py = 0\<rparr>, \<lparr>px = 5, py = 0\<rparr>] 0 ! 0) (clean \<lparr>res = 10, len = 2, points = [], center = \<lparr>px = 0, py = 0\<rparr>\<rparr> [\<lparr>px = 0, py = 0\<rparr>, \<lparr>px = 1, py = 0\<rparr>, \<lparr>px = 5, py = 0\<rparr>] 0 ! 1) < len \<lparr>res = 10, len = 2, points = [], center = \<lparr>px = 0, py = 0\<rparr>\<rparr> - 0"
proof -
  have cl: "clean \<lparr>res = 10, len = 2, points = [], center = \<lparr>px = 0, py = 0\<rparr>\<rparr> [\<lparr>px = 0, py = 0\<rparr>, \<lparr>px = 1, py = 0\<rparr>, \<lparr>px = 5, py = 0\<rparr>] 0 = [\<lparr>px = 0, py = 0\<rparr>, \<lparr>px = 5, py = 0\<rparr>]"
    by (simp add: clean_def close_pairs_def enumerate_eq_zip upt_rec [of 0] upt_rec [of 1]
        upt_rec [of 2] qdist_def remove_step_def)
  have h: "0 < length (clean \<lparr>res = 10, len = 2, points = [], center = \<lparr>px = 0, py = 0\<rparr>\<rparr> [\<lparr>px = 0, py = 0\<rparr>, \<lparr>px = 1, py = 0\<rparr>, \<lparr>px = 5, py = 0\<rparr>] 0) \<and> 1 < length (clean \<lparr>res = 10, len = 2, points = [], center = \<lparr>px = 0, py = 0\<rparr>\<rparr> [\<lparr>px = 0, py = 0\<rparr>, \<lparr>px = 1, py = 0\<rparr>, \<lparr>px = 5, py = 0\<rparr>] 0) \<and> (0::nat) \<noteq> 1"
    by (simp add: cl)
  from clean_min_spacing [of "\<lparr>res = 10, len = 2, points = [], center = \<lparr>px = 0, py = 0\<rparr>\<rparr>"
      "[\<lparr>px = 0, py = 0\<rparr>, \<lparr>px = 1, py = 0\<rparr>, \<lparr>px = 5, py = 0\<rparr>]" 0] h cl show ?thesis by blast
qed

lemma close_pairs_clean: "close_pairs ((len g - tol)\<^sup>2) (clean g ps tol) = []"
proof -
  have nc: "c \<notin> set (close_pairs ((len g - tol)\<^sup>2) (clean g ps tol))" for c
  proof (cases c)
    case (Pair i j)
    show ?thesis
      unfolding Pair in_close_pairs using clean_no_close_pair[of i g ps tol j] by blast
  qed
  show ?thesis
  proof (cases "close_pairs ((len g - tol)\<^sup>2) (clean g ps tol)")
    case Nil
    then show ?thesis .
  next
    case (Cons c cs)
    then have "c \<in> set (close_pairs ((len g - tol)\<^sup>2) (clean g ps tol))" by simp
    with nc show ?thesis by blast
  qed
qed

text \<open>
  C3. \<open>clean\<close> is idempotent: cleaning the output of \<open>clean\<close> again, with the same
  generator and tolerance, returns it unchanged.
\<close>

theorem clean_idempotent: "clean g (clean g ps tol) tol = clean g ps tol"
proof -
  have "clean g (clean g ps tol) tol =
          map snd (filter (\<lambda>(idx, p). idx \<notin> set []) (enumerate 0 (clean g ps tol)))"
    unfolding clean_def[of g "clean g ps tol" tol] Let_def close_pairs_clean by simp
  also have "\<dots> = clean g ps tol" by simp
  finally show ?thesis .
qed


subsection \<open>pointOnArc\<close>

text \<open>A dividend smaller in absolute value than the divisor is its own remainder.\<close>

lemma js_rem_small:
  assumes "\<bar>v\<bar> < m"
  shows "js_rem v m = v"
proof -
  from assms have m: "0 < m" by simp
  have q: "- 1 < v / m" "v / m < 1"
    using assms m by (simp_all add: field_simps)
  have "js_trunc (v / m) = 0"
  proof (cases "0 \<le> v / m")
    case True
    with q have "\<lfloor>v / m\<rfloor> = 0" by (simp add: floor_eq_iff)
    with True show ?thesis by (simp add: js_trunc_def)
  next
    case False
    with q have "\<lceil>v / m\<rceil> = 0" by (simp add: ceiling_eq_iff)
    with False show ?thesis by (simp add: js_trunc_def)
  qed
  then show ?thesis by (simp add: js_rem_def)
qed

text \<open>
  Between two unit vectors \<open>angleBetween\<close> has a result: the angle in \<open>[-pi, pi]\<close>
  whose cosine is their dot product and whose sine is their cross product.
\<close>

lemma angleBetween_unit:
  assumes u: "(px u)\<^sup>2 + (py u)\<^sup>2 = 1" and v: "(px v)\<^sup>2 + (py v)\<^sup>2 = 1"
  shows "\<exists>a. angleBetween u v = Some a \<and>
           cos a = px u * px v + py u * py v \<and>
           sin a = px u * py v - py u * px v \<and> - pi \<le> a \<and> a \<le> pi \<and>
           (0 \<le> px u * py v - py u * px v \<longrightarrow> 0 \<le> a)"
proof -
  define p where "p = px u * px v + py u * py v"
  define c where "c = px u * py v - py u * px v"
  define sg :: real where "sg = (if c < 0 then - 1 else 1)"
  have "p\<^sup>2 + c\<^sup>2 = ((px u)\<^sup>2 + (py u)\<^sup>2) * ((px v)\<^sup>2 + (py v)\<^sup>2)"
    by (simp add: p_def c_def power2_eq_square algebra_simps)
  then have pc: "p\<^sup>2 + c\<^sup>2 = 1" by (simp add: u v)
  then have "p\<^sup>2 \<le> 1" using zero_le_power2 [of c] by linarith
  then have p1: "- 1 \<le> p" "p \<le> 1"
    using abs_le_square_iff [of p 1] by auto
  have ab: "angleBetween u v = Some (sg * arccos p)"
    using p1 by (simp add: angleBetween_def Let_def u v p_def [symmetric] c_def [symmetric] sg_def)
  have cs: "cos (sg * arccos p) = p"
    using p1 by (simp add: sg_def cos_arccos)
  have "sin (arccos p) = sqrt (1 - p\<^sup>2)"
    using p1 by (rule sin_arccos)
  also have "1 - p\<^sup>2 = c\<^sup>2" using pc by simp
  finally have "sin (arccos p) = \<bar>c\<bar>" by simp
  then have sn: "sin (sg * arccos p) = c"
    by (simp add: sg_def)
  have "0 \<le> arccos p" "arccos p \<le> pi"
    using p1 by (simp_all add: arccos_lbound arccos_ubound)
  then have bd: "- pi \<le> sg * arccos p" "sg * arccos p \<le> pi"
    by (simp_all add: sg_def)
  have sgn: "0 \<le> c \<longrightarrow> 0 \<le> sg * arccos p"
    using \<open>0 \<le> arccos p\<close> by (simp add: sg_def)
  from ab cs sn bd sgn show ?thesis
    unfolding p_def c_def by blast
qed

text \<open>The start and end vectors of step 4 are unit vectors.\<close>

lemma arc_vectors_unit:
  fixes tx ty rx2 ry2 k L :: real
  assumes r: "0 < rx2" "0 < ry2" and L: "L = (tx / rx2)\<^sup>2 + (ty / ry2)\<^sup>2" "0 < L"
    and k: "k\<^sup>2 = (1 - L) / L"
  defines "cx \<equiv> k * ((rx2 * ty) / ry2)" and "cy \<equiv> k * (- (ry2 * tx) / rx2)"
  shows "((tx - cx) / rx2)\<^sup>2 + ((ty - cy) / ry2)\<^sup>2 = 1"
    and "((- tx - cx) / rx2)\<^sup>2 + ((- ty - cy) / ry2)\<^sup>2 = 1"
proof -
  define a where "a = tx / rx2"
  define b where "b = ty / ry2"
  have s: "(tx - cx) / rx2 = a - k * b" "(ty - cy) / ry2 = b + k * a"
    "(- tx - cx) / rx2 = - a - k * b" "(- ty - cy) / ry2 = - b + k * a"
    using r by (simp_all add: cx_def cy_def a_def b_def field_simps)
  have k1: "1 + k\<^sup>2 = 1 / L"
    using L(2) by (simp add: k field_simps)
  have "(a - k * b)\<^sup>2 + (b + k * a)\<^sup>2 = (a\<^sup>2 + b\<^sup>2) * (1 + k\<^sup>2)"
    by (simp add: power2_eq_square algebra_simps)
  also have "\<dots> = L * (1 / L)"
    by (simp only: k1 L(1) a_def b_def)
  also have "\<dots> = 1" using L(2) by simp
  finally show "((tx - cx) / rx2)\<^sup>2 + ((ty - cy) / ry2)\<^sup>2 = 1"
    by (simp only: s)
  have "(- a - k * b)\<^sup>2 + (- b + k * a)\<^sup>2 = (a\<^sup>2 + b\<^sup>2) * (1 + k\<^sup>2)"
    by (simp add: power2_eq_square algebra_simps)
  also have "\<dots> = L * (1 / L)"
    by (simp only: k1 L(1) a_def b_def)
  also have "\<dots> = 1" using L(2) by simp
  finally show "((- tx - cx) / rx2)\<^sup>2 + ((- ty - cy) / ry2)\<^sup>2 = 1"
    by (simp only: s)
qed


text \<open>
  In exact arithmetic, for distinct endpoints and positive radii the conversion has a
  result; its sweep angle has the sign that the sweep flag asks for and is less than a
  full turn, and the ellipse point at the start angle is \<open>p0\<close>, the one at start angle
  plus sweep angle is \<open>p1\<close>. When the radii are scaled up (\<^verbatim>\<open>radiiCheck > 1\<close>) the
  center is the midpoint, the end vector is the negated start vector, and the sweep angle
  is exactly half a turn: \<^verbatim>\<open>Math.acos\<close> is then evaluated at exactly \<open>-1\<close>, the edge of
  its domain.
\<close>

lemma arcParameters_endpoints:
  fixes p0 p1 :: point and rx ry phi :: real
  assumes nd: "\<not> (px p0 = px p1 \<and> py p0 = py p1)" and rx: "0 < rx" and ry: "0 < ry"
  shows "\<exists>a. arcParameters p0 rx ry phi lrg swp p1 = Some a \<and>
           (\<not> swp \<longrightarrow> arc_sweepAngle a \<le> 0) \<and> (swp \<longrightarrow> 0 \<le> arc_sweepAngle a) \<and>
           \<bar>arc_sweepAngle a\<bar> < 2 * pi \<and>
           (1 < arcRadiiCheck p0 rx ry phi p1 \<longrightarrow>
              arc_sweepAngle a = (if swp then pi else - pi)) \<and>
           cos phi * (arc_rx a * cos (arc_startAngle a))
             - sin phi * (arc_ry a * sin (arc_startAngle a)) + px (arc_center a) = px p0 \<and>
           sin phi * (arc_rx a * cos (arc_startAngle a))
             + cos phi * (arc_ry a * sin (arc_startAngle a)) + py (arc_center a) = py p0 \<and>
           cos phi * (arc_rx a * cos (arc_startAngle a + arc_sweepAngle a))
             - sin phi * (arc_ry a * sin (arc_startAngle a + arc_sweepAngle a))
             + px (arc_center a) = px p1 \<and>
           sin phi * (arc_rx a * cos (arc_startAngle a + arc_sweepAngle a))
             + cos phi * (arc_ry a * sin (arc_startAngle a + arc_sweepAngle a))
             + py (arc_center a) = py p1"
proof -
  define dx where "dx = (px p0 - px p1) / 2"
  define dy where "dy = (py p0 - py p1) / 2"
  define tx where "tx = cos phi * dx + sin phi * dy"
  define ty where "ty = - sin phi * dx + cos phi * dy"
  define rc where "rc = tx\<^sup>2 / rx\<^sup>2 + ty\<^sup>2 / ry\<^sup>2"
  define rx2 where "rx2 = (if rc > 1 then sqrt rc * rx else rx)"
  define ry2 where "ry2 = (if rc > 1 then sqrt rc * ry else ry)"
  define num where "num = rx2\<^sup>2 * ry2\<^sup>2 - rx2\<^sup>2 * ty\<^sup>2 - ry2\<^sup>2 * tx\<^sup>2"
  define den where "den = rx2\<^sup>2 * ty\<^sup>2 + ry2\<^sup>2 * tx\<^sup>2"
  define rad where "rad = (if num / den < 0 then 0 else num / den)"
  define k where "k = (if lrg \<noteq> swp then 1 else - 1) * sqrt rad"
  define cx where "cx = k * ((rx2 * ty) / ry2)"
  define cy where "cy = k * (- (ry2 * tx) / rx2)"
  define cen where "cen = \<lparr>px = cos phi * cx - sin phi * cy + (px p0 + px p1) / 2,
                            py = sin phi * cx + cos phi * cy + (py p0 + py p1) / 2\<rparr>"
  define sv where "sv = \<lparr>px = (tx - cx) / rx2, py = (ty - cy) / ry2\<rparr>"
  define ev where "ev = \<lparr>px = (- tx - cx) / rx2, py = (- ty - cy) / ry2\<rparr>"
  define adj where "adj = (\<lambda>sw0. if \<not> swp \<and> sw0 > 0 then sw0 - 2 * pi
                                  else if swp \<and> sw0 < 0 then sw0 + 2 * pi else sw0)"
  have unfold: "arcParameters p0 rx ry phi lrg swp p1 =
      (if den = 0 then None
       else case angleBetween \<lparr>px = 1, py = 0\<rparr> sv of
              None \<Rightarrow> None
            | Some startAngle \<Rightarrow>
                (case angleBetween sv ev of
                   None \<Rightarrow> None
                 | Some sw0 \<Rightarrow>
                     Some \<lparr>arc_rx = rx2, arc_ry = ry2, arc_center = cen,
                           arc_startAngle = startAngle,
                           arc_sweepAngle = js_rem (adj sw0) (2 * pi)\<rparr>))"
    unfolding arcParameters_def Let_def adj_def ev_def sv_def cen_def cy_def cx_def k_def
      rad_def den_def num_def ry2_def rx2_def rc_def ty_def tx_def dy_def dx_def ..
  have rot_x: "cos phi * tx - sin phi * ty = dx"
  proof -
    have "cos phi * tx - sin phi * ty = dx * (cos phi * cos phi) + dx * (sin phi * sin phi)"
      by (simp add: tx_def ty_def algebra_simps)
    also have "\<dots> = dx * (cos phi * cos phi + sin phi * sin phi)"
      by (simp only: distrib_left)
    also have "\<dots> = dx"
      by (simp only: sin_cos_squared_add3 mult_1_right)
    finally show ?thesis .
  qed
  have rot_y: "sin phi * tx + cos phi * ty = dy"
  proof -
    have "sin phi * tx + cos phi * ty = dy * (cos phi * cos phi) + dy * (sin phi * sin phi)"
      by (simp add: tx_def ty_def algebra_simps)
    also have "\<dots> = dy * (cos phi * cos phi + sin phi * sin phi)"
      by (simp only: distrib_left)
    also have "\<dots> = dy"
      by (simp only: sin_cos_squared_add3 mult_1_right)
    finally show ?thesis .
  qed
  have "dx \<noteq> 0 \<or> dy \<noteq> 0" using nd by (auto simp: dx_def dy_def)
  with rot_x rot_y have t0: "tx \<noteq> 0 \<or> ty \<noteq> 0" by auto
  have rc_pos: "0 < rc"
  proof -
    have "0 \<le> tx\<^sup>2 / rx\<^sup>2" "0 \<le> ty\<^sup>2 / ry\<^sup>2" by simp_all
    moreover have "0 < tx\<^sup>2 / rx\<^sup>2 \<or> 0 < ty\<^sup>2 / ry\<^sup>2"
      using t0 rx ry by (auto simp: zero_less_divide_iff)
    ultimately show ?thesis unfolding rc_def by linarith
  qed
  have r2: "0 < rx2" "0 < ry2"
    using rx ry rc_pos by (simp_all add: rx2_def ry2_def)
  define L where "L = (tx / rx2)\<^sup>2 + (ty / ry2)\<^sup>2"
  have rc_eq: "arcRadiiCheck p0 rx ry phi p1 = rc"
    unfolding arcRadiiCheck_def Let_def rc_def ty_def tx_def dy_def dx_def ..
  have L_scaled: "L = 1" if "rc > 1"
  proof -
    from that have s: "(sqrt rc)\<^sup>2 = rc" by simp
    have "L = tx\<^sup>2 / (rc * rx\<^sup>2) + ty\<^sup>2 / (rc * ry\<^sup>2)"
      using that by (simp add: L_def rx2_def ry2_def power_divide power_mult_distrib s)
    also have "\<dots> = (tx\<^sup>2 / rx\<^sup>2) / rc + (ty\<^sup>2 / ry\<^sup>2) / rc"
      by (simp add: mult.commute)
    also have "\<dots> = (tx\<^sup>2 / rx\<^sup>2 + ty\<^sup>2 / ry\<^sup>2) / rc"
      by (simp only: add_divide_distrib)
    also have "\<dots> = rc / rc"
      by (simp only: rc_def)
    also have "\<dots> = 1" using that by simp
    finally show ?thesis .
  qed
  have L1: "0 < L" "L \<le> 1"
  proof -
    show "0 < L"
    proof -
      have "0 \<le> (tx / rx2)\<^sup>2" "0 \<le> (ty / ry2)\<^sup>2" by simp_all
      moreover have "0 < (tx / rx2)\<^sup>2 \<or> 0 < (ty / ry2)\<^sup>2"
        using t0 r2 by auto
      ultimately show ?thesis unfolding L_def by linarith
    qed
    show "L \<le> 1"
    proof (cases "rc > 1")
      case True
      then show ?thesis by (simp add: L_scaled)
    next
      case False
      then have "L = rc"
        by (simp add: L_def rx2_def ry2_def rc_def power_divide)
      with False show ?thesis by simp
    qed
  qed
  define W where "W = rx2\<^sup>2 * ry2\<^sup>2"
  have W: "0 < W" using r2 by (simp add: W_def)
  have Lr: "L * W = den"
    using r2 by (simp add: W_def L_def den_def power_divide field_simps)
  have nr: "(1 - L) * W = num"
    using Lr by (simp add: W_def num_def den_def algebra_simps)
  have "0 < L * W" using L1(1) W by (rule mult_pos_pos)
  then have den0: "den \<noteq> 0" by (simp add: Lr)
  have q: "num / den = (1 - L) / L"
    unfolding Lr [symmetric] nr [symmetric] using W by (intro mult_divide_mult_cancel_right) simp
  have q0: "0 \<le> (1 - L) / L"
    using L1 by (intro divide_nonneg_pos) simp_all
  then have rad: "rad = (1 - L) / L" "0 \<le> rad"
    by (simp_all add: rad_def q not_less [symmetric])
  have k2: "k\<^sup>2 = (1 - L) / L"
    using rad by (simp add: k_def power_mult_distrib)
  have unit: "(px sv)\<^sup>2 + (py sv)\<^sup>2 = 1" "(px ev)\<^sup>2 + (py ev)\<^sup>2 = 1"
    using arc_vectors_unit [OF r2 L_def L1(1) k2]
    by (simp_all add: sv_def ev_def cx_def cy_def)
  have e1: "(px \<lparr>px = 1, py = 0\<rparr>)\<^sup>2 + (py \<lparr>px = 1, py = (0::real)\<rparr>)\<^sup>2 = 1" by simp
  from angleBetween_unit [OF e1 unit(1)] obtain a0 where
    a0: "angleBetween \<lparr>px = 1, py = 0\<rparr> sv = Some a0" "cos a0 = px sv" "sin a0 = py sv"
    by auto
  from angleBetween_unit [OF unit] obtain sw0 where
    sw0: "angleBetween sv ev = Some sw0" "cos sw0 = px sv * px ev + py sv * py ev"
      "sin sw0 = px sv * py ev - py sv * px ev" "- pi \<le> sw0" "sw0 \<le> pi"
      "0 \<le> px sv * py ev - py sv * px ev \<longrightarrow> 0 \<le> sw0"
    by auto
  define sw where "sw = adj sw0"
  have sw_cases: "sw = sw0 - 2 * pi \<and> \<not> swp \<and> 0 < sw0 \<or>
                  sw = sw0 + 2 * pi \<and> swp \<and> sw0 < 0 \<or>
                  sw = sw0 \<and> (\<not> swp \<longrightarrow> sw0 \<le> 0) \<and> (swp \<longrightarrow> 0 \<le> sw0)"
    unfolding sw_def adj_def by auto
  have sw_bound: "\<bar>sw\<bar> < 2 * pi"
    using sw_cases sw0(4,5) pi_gt_zero by argo
  have sw_sign: "(\<not> swp \<longrightarrow> sw \<le> 0) \<and> (swp \<longrightarrow> 0 \<le> sw)"
    using sw_cases sw0(4,5) pi_gt_zero by argo
  have half: "sw = (if swp then pi else - pi)" if "1 < rc"
  proof -
    have "rad = 0" using rad(1) L_scaled [OF that] by simp
    then have "k = 0" by (simp add: k_def)
    then have c0: "cx = 0" "cy = 0" by (simp_all add: cx_def cy_def)
    have opp: "px ev = - px sv" "py ev = - py sv"
      by (simp_all add: sv_def ev_def c0)
    have "cos sw0 = - ((px sv)\<^sup>2 + (py sv)\<^sup>2)"
      by (simp add: sw0(2) opp power2_eq_square)
    then have cm: "cos sw0 = - 1" by (simp only: unit(1))
    have "0 \<le> sw0" using sw0(6) by (simp add: opp)
    then have "arccos (cos sw0) = sw0" using sw0(5) by (rule arccos_cos)
    then have "sw0 = pi" by (simp add: cm)
    then show ?thesis
      using pi_gt_zero by (simp add: sw_def adj_def)
  qed
  have per: "cos (sw0 - 2 * pi) = cos sw0" "sin (sw0 - 2 * pi) = sin sw0"
    "cos (sw0 + 2 * pi) = cos sw0" "sin (sw0 + 2 * pi) = sin sw0"
    using cos_periodic [of "sw0 - 2 * pi"] sin_periodic [of "sw0 - 2 * pi"] by simp_all
  have sw_cs: "cos sw = cos sw0" "sin sw = sin sw0"
    using sw_cases per by auto
  have rem: "js_rem (adj sw0) (2 * pi) = sw"
    using js_rem_small [OF sw_bound] by (simp add: sw_def)
  define a where "a = \<lparr>arc_rx = rx2, arc_ry = ry2, arc_center = cen,
                        arc_startAngle = a0, arc_sweepAngle = sw\<rparr>"
  have res: "arcParameters p0 rx ry phi lrg swp p1 = Some a"
    unfolding unfold by (simp add: den0 a0(1) sw0(1) rem a_def)
  have c1: "cos (a0 + sw) = px ev"
  proof -
    have "cos (a0 + sw) = px sv * (px sv * px ev + py sv * py ev)
                            - py sv * (px sv * py ev - py sv * px ev)"
      by (simp add: cos_add a0 sw_cs sw0)
    also have "\<dots> = px ev * ((px sv)\<^sup>2 + (py sv)\<^sup>2)"
      by (simp add: power2_eq_square algebra_simps)
    finally show ?thesis by (simp add: unit)
  qed
  have s1: "sin (a0 + sw) = py ev"
  proof -
    have "sin (a0 + sw) = py sv * (px sv * px ev + py sv * py ev)
                            + px sv * (px sv * py ev - py sv * px ev)"
      by (simp add: sin_add a0 sw_cs sw0)
    also have "\<dots> = py ev * ((px sv)\<^sup>2 + (py sv)\<^sup>2)"
      by (simp add: power2_eq_square algebra_simps)
    finally show ?thesis by (simp add: unit)
  qed
  have comp: "rx2 * px sv = tx - cx" "ry2 * py sv = ty - cy"
    "rx2 * px ev = - tx - cx" "ry2 * py ev = - ty - cy"
    using r2 by (simp_all add: sv_def ev_def)
  have mid: "dx + (px p0 + px p1) / 2 = px p0" "dy + (py p0 + py p1) / 2 = py p0"
    "- dx + (px p0 + px p1) / 2 = px p1" "- dy + (py p0 + py p1) / 2 = py p1"
    by (simp_all add: dx_def dy_def field_simps)
  have x0: "cos phi * (rx2 * cos a0) - sin phi * (ry2 * sin a0) + px cen = px p0"
  proof -
    have "cos phi * (rx2 * cos a0) - sin phi * (ry2 * sin a0) + px cen =
            (cos phi * tx - sin phi * ty) + (px p0 + px p1) / 2"
      by (simp add: a0 comp cen_def algebra_simps)
    then show ?thesis by (simp only: rot_x mid)
  qed
  have y0: "sin phi * (rx2 * cos a0) + cos phi * (ry2 * sin a0) + py cen = py p0"
  proof -
    have "sin phi * (rx2 * cos a0) + cos phi * (ry2 * sin a0) + py cen =
            (sin phi * tx + cos phi * ty) + (py p0 + py p1) / 2"
      by (simp add: a0 comp cen_def algebra_simps)
    then show ?thesis by (simp only: rot_y mid)
  qed
  have x1: "cos phi * (rx2 * cos (a0 + sw)) - sin phi * (ry2 * sin (a0 + sw)) + px cen = px p1"
  proof -
    have "cos phi * (rx2 * cos (a0 + sw)) - sin phi * (ry2 * sin (a0 + sw)) + px cen =
            - (cos phi * tx - sin phi * ty) + (px p0 + px p1) / 2"
      by (simp add: c1 s1 comp cen_def algebra_simps)
    then show ?thesis by (simp only: rot_x mid)
  qed
  have y1: "sin phi * (rx2 * cos (a0 + sw)) + cos phi * (ry2 * sin (a0 + sw)) + py cen = py p1"
  proof -
    have "sin phi * (rx2 * cos (a0 + sw)) + cos phi * (ry2 * sin (a0 + sw)) + py cen =
            - (sin phi * tx + cos phi * ty) + (py p0 + py p1) / 2"
      by (simp add: c1 s1 comp cen_def algebra_simps)
    then show ?thesis by (simp only: rot_y mid)
  qed
  have "(\<not> swp \<longrightarrow> arc_sweepAngle a \<le> 0) \<and> (swp \<longrightarrow> 0 \<le> arc_sweepAngle a) \<and>
        \<bar>arc_sweepAngle a\<bar> < 2 * pi"
    using sw_bound sw_sign by (simp add: a_def)
  moreover have "1 < arcRadiiCheck p0 rx ry phi p1 \<longrightarrow>
                   arc_sweepAngle a = (if swp then pi else - pi)"
    using half by (simp add: rc_eq a_def)
  moreover have "cos phi * (arc_rx a * cos (arc_startAngle a))
             - sin phi * (arc_ry a * sin (arc_startAngle a)) + px (arc_center a) = px p0"
    using x0 by (simp add: a_def)
  moreover have "sin phi * (arc_rx a * cos (arc_startAngle a))
             + cos phi * (arc_ry a * sin (arc_startAngle a)) + py (arc_center a) = py p0"
    using y0 by (simp add: a_def)
  moreover have "cos phi * (arc_rx a * cos (arc_startAngle a + arc_sweepAngle a))
             - sin phi * (arc_ry a * sin (arc_startAngle a + arc_sweepAngle a))
             + px (arc_center a) = px p1"
    using x1 by (simp add: a_def)
  moreover have "sin phi * (arc_rx a * cos (arc_startAngle a + arc_sweepAngle a))
             + cos phi * (arc_ry a * sin (arc_startAngle a + arc_sweepAngle a))
             + py (arc_center a) = py p1"
    using y1 by (simp add: a_def)
  ultimately show ?thesis using res by blast
qed


text \<open>
  C4 and C6 are about the arc branch as the program computes it, in doubles. The lemmas
  that follow hold in exact arithmetic only, where the quotient given to \<^verbatim>\<open>Math.acos\<close>
  in \<open>angleBetween\<close> lies in \<open>[-1, 1]\<close>. In doubles it need not: for scaled-up radii
  the exact quotient of the sweep angle is \<open>-1\<close> (\<open>pointOnArc_scaled_half_turn\<close>
  below), and the rounded quotient can be \<^verbatim>\<open>-1.0000000000000002\<close>, where \<^verbatim>\<open>Math.acos\<close>
  is \<^verbatim>\<open>NaN\<close>. The source clamps \<^verbatim>\<open>cRadicand\<close> against rounding of this kind
  (line 123) and has a \<^verbatim>\<open>clamp\<close> helper, but gives \<^verbatim>\<open>p / n\<close> to \<^verbatim>\<open>Math.acos\<close>
  as it is. The sweep angle and the coordinates of the point are then \<^verbatim>\<open>NaN\<close> for every
  \<open>t\<close>, so C4 and C6 do not hold of the program, and neither is claimed here.
\<close>

text \<open>
  In exact arithmetic, for an arc with distinct endpoints and radii other than zero, any
  rotation and any flags, \<open>pointOnArc\<close> at \<open>t = 0\<close> returns the start point and at
  \<open>t = 1\<close> the end point, each with its arc fields attached.
\<close>

theorem pointOnArc_endpoints_exact:
  assumes "\<not> (px p0 = px p1 \<and> py p0 = py p1)" and "rx \<noteq> 0" and "ry \<noteq> 0"
  shows "\<exists>i0 i1. pointOnArc p0 rx ry rot lrg swp p1 0 = Some (p0, Some i0) \<and>
                 pointOnArc p0 rx ry rot lrg swp p1 1 = Some (p1, Some i1)"
proof -
  have r: "0 < \<bar>rx\<bar>" "0 < \<bar>ry\<bar>" using assms(2,3) by simp_all
  have r0: "\<not> (\<bar>rx\<bar> = 0 \<or> \<bar>ry\<bar> = 0)" using assms(2,3) by simp
  from arcParameters_endpoints [OF assms(1) r, of "toRadians (mod_js rot 360)" lrg swp]
  obtain a where a: "arcParameters p0 \<bar>rx\<bar> \<bar>ry\<bar> (toRadians (mod_js rot 360)) lrg swp p1 = Some a"
    and e0: "cos (toRadians (mod_js rot 360)) * (arc_rx a * cos (arc_startAngle a))
             - sin (toRadians (mod_js rot 360)) * (arc_ry a * sin (arc_startAngle a))
             + px (arc_center a) = px p0"
      "sin (toRadians (mod_js rot 360)) * (arc_rx a * cos (arc_startAngle a))
             + cos (toRadians (mod_js rot 360)) * (arc_ry a * sin (arc_startAngle a))
             + py (arc_center a) = py p0"
    and e1: "cos (toRadians (mod_js rot 360)) * (arc_rx a * cos (arc_startAngle a + arc_sweepAngle a))
             - sin (toRadians (mod_js rot 360)) * (arc_ry a * sin (arc_startAngle a + arc_sweepAngle a))
             + px (arc_center a) = px p1"
      "sin (toRadians (mod_js rot 360)) * (arc_rx a * cos (arc_startAngle a + arc_sweepAngle a))
             + cos (toRadians (mod_js rot 360)) * (arc_ry a * sin (arc_startAngle a + arc_sweepAngle a))
             + py (arc_center a) = py p1"
    by blast
  have "\<exists>i0. pointOnArc p0 rx ry rot lrg swp p1 0 = Some (p0, Some i0)"
    unfolding pointOnArc_def Let_def using assms(1) r0 by (simp add: a e0)
  moreover have "\<exists>i1. pointOnArc p0 rx ry rot lrg swp p1 1 = Some (p1, Some i1)"
    unfolding pointOnArc_def Let_def using assms(1) r0 by (simp add: a e1)
  ultimately show ?thesis by blast
qed

theorem pointOnArc_endpoints_exact_witness:
  "\<not> (px \<lparr>px = 0, py = 0\<rparr> = px \<lparr>px = 2, py = 1\<rparr> \<and> py \<lparr>px = 0, py = 0\<rparr> = py \<lparr>px = 2, py = 1\<rparr>) \<and>
   (3::real) \<noteq> 0 \<and> (2::real) \<noteq> 0 \<and>
   (\<exists>i0 i1. pointOnArc \<lparr>px = 0, py = 0\<rparr> 3 2 30 True False \<lparr>px = 2, py = 1\<rparr> 0
                = Some (\<lparr>px = 0, py = 0\<rparr>, Some i0) \<and>
            pointOnArc \<lparr>px = 0, py = 0\<rparr> 3 2 30 True False \<lparr>px = 2, py = 1\<rparr> 1
                = Some (\<lparr>px = 2, py = 1\<rparr>, Some i1))"
proof -
  have h: "\<not> (px \<lparr>px = 0, py = 0\<rparr> = px \<lparr>px = 2, py = 1\<rparr> \<and>
              py \<lparr>px = 0, py = 0\<rparr> = py \<lparr>px = 2, py = (1::real)\<rparr>)"
    "(3::real) \<noteq> 0" "(2::real) \<noteq> 0"
    by simp_all
  from pointOnArc_endpoints_exact [OF h, of 30 True False] h show ?thesis by blast
qed

text \<open>
  C5. If start and end have the same coordinates, \<open>pointOnArc\<close> returns the start
  point for every \<open>t\<close>; if a radius is zero it returns the point of \<open>pointOnLine\<close>
  between start and end at \<open>t\<close>.
\<close>

theorem pointOnArc_degenerate:
  "(px p0 = px p1 \<and> py p0 = py p1 \<longrightarrow>
      pointOnArc p0 rx ry rot lrg swp p1 t = Some (p0, None)) \<and>
   (rx = 0 \<or> ry = 0 \<longrightarrow>
      pointOnArc p0 rx ry rot lrg swp p1 t = Some (pointOnLine p0 p1 t, None))"
proof -
  have "pointOnLine p0 p1 t = p0" if "px p0 = px p1 \<and> py p0 = py p1"
    using that by (simp add: pointOnLine_def calculateLineParameter_def)
  then show ?thesis
    by (auto simp: pointOnArc_def Let_def)
qed

theorem pointOnArc_degenerate_witness:
  "(px \<lparr>px = 1, py = 2\<rparr> = px \<lparr>px = 1, py = 2\<rparr> \<and> py \<lparr>px = 1, py = 2\<rparr> = py \<lparr>px = 1, py = (2::real)\<rparr>) \<and>
   pointOnArc \<lparr>px = 1, py = 2\<rparr> 3 4 30 True False \<lparr>px = 1, py = 2\<rparr> (1 / 2)
     = Some (\<lparr>px = 1, py = 2\<rparr>, None) \<and>
   ((0::real) = 0 \<or> (5::real) = 0) \<and>
   pointOnArc \<lparr>px = 0, py = 0\<rparr> 0 5 30 True False \<lparr>px = 2, py = 4\<rparr> (1 / 2)
     = Some (\<lparr>px = 1, py = 2\<rparr>, None)"
proof -
  have l: "pointOnLine \<lparr>px = 0, py = 0\<rparr> \<lparr>px = 2, py = 4\<rparr> (1 / 2) = \<lparr>px = 1, py = 2\<rparr>"
    by (simp add: pointOnLine_def calculateLineParameter_def)
  from pointOnArc_degenerate [of "\<lparr>px = 1, py = 2\<rparr>" "\<lparr>px = 1, py = 2\<rparr>" 3 4 30 True False "1 / 2"]
    pointOnArc_degenerate [of "\<lparr>px = 0, py = 0\<rparr>" "\<lparr>px = 2, py = 4\<rparr>" 0 5 30 True False "1 / 2"] l
  show ?thesis by simp
qed

text \<open>
  In exact arithmetic, in the arc branch of \<open>pointOnArc\<close> (distinct endpoints, radii
  other than zero) the sweep angle, which is the difference of the end angle and the start
  angle attached to the point, is \<open>\<le> 0\<close> when the sweep flag is false, \<open>\<ge> 0\<close> when
  it is true, and its absolute value is below \<open>2 * pi\<close>.
\<close>

theorem pointOnArc_sweepAngle_exact:
  assumes "\<not> (px p0 = px p1 \<and> py p0 = py p1)" and "rx \<noteq> 0" and "ry \<noteq> 0"
  shows "\<exists>a pt info.
           arcParameters p0 \<bar>rx\<bar> \<bar>ry\<bar> (toRadians (mod_js rot 360)) lrg swp p1 = Some a \<and>
           pointOnArc p0 rx ry rot lrg swp p1 t = Some (pt, Some info) \<and>
           ellipticalArcEndAngle info = ellipticalArcStartAngle info + arc_sweepAngle a \<and>
           (\<not> swp \<longrightarrow> arc_sweepAngle a \<le> 0) \<and> (swp \<longrightarrow> 0 \<le> arc_sweepAngle a) \<and>
           \<bar>arc_sweepAngle a\<bar> < 2 * pi"
proof -
  have r: "0 < \<bar>rx\<bar>" "0 < \<bar>ry\<bar>" using assms(2,3) by simp_all
  have r0: "\<not> (\<bar>rx\<bar> = 0 \<or> \<bar>ry\<bar> = 0)" using assms(2,3) by simp
  from arcParameters_endpoints [OF assms(1) r, of "toRadians (mod_js rot 360)" lrg swp]
  obtain a where a: "arcParameters p0 \<bar>rx\<bar> \<bar>ry\<bar> (toRadians (mod_js rot 360)) lrg swp p1 = Some a"
    and s: "(\<not> swp \<longrightarrow> arc_sweepAngle a \<le> 0) \<and> (swp \<longrightarrow> 0 \<le> arc_sweepAngle a) \<and>
            \<bar>arc_sweepAngle a\<bar> < 2 * pi"
    by blast
  have "\<exists>pt info. pointOnArc p0 rx ry rot lrg swp p1 t = Some (pt, Some info) \<and>
          ellipticalArcEndAngle info = ellipticalArcStartAngle info + arc_sweepAngle a"
    unfolding pointOnArc_def Let_def using assms(1) r0 by (simp add: a)
  with a s show ?thesis by blast
qed

theorem pointOnArc_sweepAngle_exact_witness:
  "\<not> (px \<lparr>px = 0, py = 0\<rparr> = px \<lparr>px = 2, py = 1\<rparr> \<and> py \<lparr>px = 0, py = 0\<rparr> = py \<lparr>px = 2, py = 1\<rparr>) \<and> (3::real) \<noteq> 0 \<and> (2::real) \<noteq> 0 \<and>
   (\<exists>a pt info.
      arcParameters \<lparr>px = 0, py = 0\<rparr> \<bar>3\<bar> \<bar>2\<bar> (toRadians (mod_js 30 360)) True False \<lparr>px = 2, py = 1\<rparr> = Some a \<and>
      pointOnArc \<lparr>px = 0, py = 0\<rparr> 3 2 30 True False \<lparr>px = 2, py = 1\<rparr> (1 / 2) = Some (pt, Some info) \<and>
      ellipticalArcEndAngle info = ellipticalArcStartAngle info + arc_sweepAngle a \<and>
      arc_sweepAngle a \<le> 0 \<and> \<bar>arc_sweepAngle a\<bar> < 2 * pi) \<and>
   (\<exists>a pt info.
      arcParameters \<lparr>px = 0, py = 0\<rparr> \<bar>3\<bar> \<bar>2\<bar> (toRadians (mod_js 30 360)) True True \<lparr>px = 2, py = 1\<rparr> = Some a \<and>
      pointOnArc \<lparr>px = 0, py = 0\<rparr> 3 2 30 True True \<lparr>px = 2, py = 1\<rparr> (1 / 2) = Some (pt, Some info) \<and>
      ellipticalArcEndAngle info = ellipticalArcStartAngle info + arc_sweepAngle a \<and>
      0 \<le> arc_sweepAngle a \<and> \<bar>arc_sweepAngle a\<bar> < 2 * pi)"
proof -
  have h: "\<not> (px \<lparr>px = 0, py = 0\<rparr> = px \<lparr>px = 2, py = 1\<rparr> \<and> py \<lparr>px = 0, py = 0\<rparr> = py (\<lparr>px = 2, py = 1\<rparr>::point))"
    "(3::real) \<noteq> 0" "(2::real) \<noteq> 0"
    by simp_all
  from pointOnArc_sweepAngle_exact [OF h, of 30 True False "1 / 2"]
    pointOnArc_sweepAngle_exact [OF h, of 30 True True "1 / 2"] h
  show ?thesis by simp
qed

text \<open>
  In exact arithmetic, when \<^verbatim>\<open>radiiCheck > 1\<close> the sweep angle is exactly half a turn,
  \<open>pi\<close> or \<open>- pi\<close> by the sweep flag: the angle between the start vector and the end
  vector is \<open>arccos (- 1)\<close>. This is the case in which the doubles of the program can
  leave the domain of \<^verbatim>\<open>Math.acos\<close>; the arcs from \<open>(10, -9)\<close> to \<open>(5, 4)\<close> and from
  \<open>(-5, 7)\<close> to \<open>(-10, -9)\<close> with radii \<open>6\<close> and \<open>4\<close> and no rotation are of this
  kind.
\<close>

lemma pointOnArc_scaled_half_turn:
  assumes "\<not> (px p0 = px p1 \<and> py p0 = py p1)" and "rx \<noteq> 0" and "ry \<noteq> 0"
    and "1 < arcRadiiCheck p0 \<bar>rx\<bar> \<bar>ry\<bar> (toRadians (mod_js rot 360)) p1"
  shows "\<exists>a. arcParameters p0 \<bar>rx\<bar> \<bar>ry\<bar> (toRadians (mod_js rot 360)) lrg swp p1 = Some a \<and>
           arc_sweepAngle a = (if swp then pi else - pi)"
proof -
  have r: "0 < \<bar>rx\<bar>" "0 < \<bar>ry\<bar>" using assms(2,3) by simp_all
  from arcParameters_endpoints [OF assms(1) r, of "toRadians (mod_js rot 360)" lrg swp] assms(4)
  show ?thesis by blast
qed

lemma scaled_radii_examples:
  "1 < arcRadiiCheck \<lparr>px = 10, py = - 9\<rparr> \<bar>6\<bar> \<bar>4\<bar> (toRadians (mod_js 0 360)) \<lparr>px = 5, py = 4\<rparr> \<and>
   1 < arcRadiiCheck \<lparr>px = - 5, py = 7\<rparr> \<bar>6\<bar> \<bar>4\<bar> (toRadians (mod_js 0 360)) \<lparr>px = - 10, py = - 9\<rparr>"
  by (simp add: arcRadiiCheck_def Let_def toRadians_def mod_js_def js_rem_def js_trunc_def
      power2_eq_square)

subsection \<open>approximateArcLengthOfCurve\<close>

text \<open>
  After \<open>n\<close> rounds of the loop the map holds the parameters of the rounds in order, its
  arc lengths are sorted, and none exceeds the running total.
\<close>

lemma distance_nonneg: "0 \<le> distance p q"
  by (simp add: distance_def)

lemma approximate_loop_invariant:
  "foldl (approximate_step N f) (f 0, 0, [], []) [0..<n] = (prev, tot, amap, lines) \<Longrightarrow>
     map entry_t amap = map (\<lambda>i. clamp (real i * (1 / real N)) 0 1) [0..<n] \<and>
     sorted_wrt (\<le>) (map entry_arcLength amap) \<and>
     (\<forall>e \<in> set amap. entry_arcLength e \<le> tot) \<and> 0 \<le> tot"
proof (induction n arbitrary: prev tot amap lines)
  case 0
  then show ?case by simp
next
  case (Suc n)
  obtain prev0 tot0 amap0 lines0 where
    l: "foldl (approximate_step N f) (f 0, 0, [], []) [0..<n] = (prev0, tot0, amap0, lines0)"
    by (cases "foldl (approximate_step N f) (f 0, 0, [], []) [0..<n]") auto
  note ih = Suc.IH [OF l]
  define t where "t = clamp (real n * (1 / real N)) 0 1"
  define d where "d = distance prev0 (f t)"
  have d0: "0 \<le> d" by (simp add: d_def distance_nonneg)
  from Suc.prems l have r: "prev = f t" "tot = tot0 + d"
    "amap = amap0 @ [\<lparr>entry_t = t, entry_arcLength = tot0 + d\<rparr>]"
    by (auto simp: Let_def t_def d_def)
  have "map entry_t amap = map (\<lambda>i. clamp (real i * (1 / real N)) 0 1) [0..<Suc n]"
    using ih by (simp add: r t_def)
  moreover have "sorted_wrt (\<le>) (map entry_arcLength amap)"
    using ih d0 by (auto simp: r sorted_wrt_append)
  moreover have "\<forall>e \<in> set amap. entry_arcLength e \<le> tot"
    using ih d0 by (auto simp: r)
  moreover have "0 \<le> tot" using ih d0 by (simp add: r)
  ultimately show ?case by blast
qed

lemma steps_strictly_increasing:
  assumes "0 < N"
  shows "sorted_wrt (<) (map (\<lambda>i. real i / real N) [0..<N] @ [1])"
proof -
  have "sorted_wrt (<) (map (\<lambda>i. real i / real N) [0..<N])"
    unfolding sorted_wrt_map
    by (rule sorted_wrt_mono_rel [OF _ sorted_wrt_upt]) (use assms in \<open>simp add: divide_strict_right_mono\<close>)
  moreover have "\<forall>i \<in> set [0..<N]. real i / real N < 1"
    using assms by simp
  ultimately show ?thesis by (simp add: sorted_wrt_append)
qed

text \<open>
  C7. For a resolution \<open>N \<ge> 1\<close> and any curve evaluator, the entries of the arc-length
  map are at \<open>t = 0, 1/N, \<dots>, (N-1)/N\<close> and then \<open>t = 1\<close>: strictly increasing in
  \<open>t\<close>, and non-decreasing in the cumulative arc length.
\<close>

theorem arcLengthMap_monotone:
  assumes "1 \<le> N"
  shows "map entry_t (arcLengthMap (approximateArcLengthOfCurve N f)) =
           map (\<lambda>i. real i / real N) [0..<N] @ [1] \<and>
         sorted_wrt (<) (map entry_t (arcLengthMap (approximateArcLengthOfCurve N f))) \<and>
         sorted_wrt (\<le>) (map entry_arcLength (arcLengthMap (approximateArcLengthOfCurve N f)))"
proof -
  obtain prev tot amap lines where
    l: "foldl (approximate_step N f) (f 0, 0, [], []) [0..<N] = (prev, tot, amap, lines)"
    by (cases "foldl (approximate_step N f) (f 0, 0, [], []) [0..<N]") auto
  note inv = approximate_loop_invariant [OF l]
  define d where "d = distance prev (f 1)"
  have d0: "0 \<le> d" by (simp add: d_def distance_nonneg)
  have m: "arcLengthMap (approximateArcLengthOfCurve N f) =
             amap @ [\<lparr>entry_t = 1, entry_arcLength = tot + d\<rparr>]"
    using assms l by (simp add: approximateArcLengthOfCurve_def Let_def d_def)
  have c: "clamp (real i * (1 / real N)) 0 1 = real i / real N" if "i < N" for i
  proof -
    have "0 \<le> real i / real N" by simp
    moreover have "real i / real N \<le> 1" using that by simp
    ultimately show ?thesis by (simp add: clamp_def)
  qed
  have "map (\<lambda>i. clamp (real i * (1 / real N)) 0 1) [0..<N] = map (\<lambda>i. real i / real N) [0..<N]"
    by (rule map_cong [OF refl]) (rule c, simp)
  with inv have ts: "map entry_t (arcLengthMap (approximateArcLengthOfCurve N f)) =
                   map (\<lambda>i. real i / real N) [0..<N] @ [1]"
    by (simp add: m)
  moreover have "sorted_wrt (<) (map entry_t (arcLengthMap (approximateArcLengthOfCurve N f)))"
    unfolding ts using assms by (intro steps_strictly_increasing) simp
  moreover have "sorted_wrt (\<le>) (map entry_arcLength (arcLengthMap (approximateArcLengthOfCurve N f)))"
    using inv d0 by (auto simp: m sorted_wrt_append intro: order_trans)
  ultimately show ?thesis by blast
qed

theorem arcLengthMap_monotone_witness:
  "(1::nat) \<le> 2 \<and>
   map entry_t (arcLengthMap (approximateArcLengthOfCurve 2
       (pointOnLine \<lparr>px = 0, py = 0\<rparr> \<lparr>px = 3, py = 4\<rparr>))) = [0, 1 / 2, 1] \<and>
   sorted_wrt (<) (map entry_t (arcLengthMap (approximateArcLengthOfCurve 2
       (pointOnLine \<lparr>px = 0, py = 0\<rparr> \<lparr>px = 3, py = 4\<rparr>)))) \<and>
   sorted_wrt (\<le>) (map entry_arcLength (arcLengthMap (approximateArcLengthOfCurve 2
       (pointOnLine \<lparr>px = 0, py = 0\<rparr> \<lparr>px = 3, py = 4\<rparr>))))"
proof -
  have h: "(1::nat) \<le> 2" by simp
  have u: "map (\<lambda>i. real i / real 2) [0..<2] @ [1] = [0, 1 / 2, 1]"
    by (simp add: upt_rec [of 0] upt_rec [of "Suc 0"])
  from arcLengthMap_monotone [OF h, of "pointOnLine \<lparr>px = 0, py = 0\<rparr> \<lparr>px = 3, py = 4\<rparr>"] h u
  show ?thesis by simp
qed


subsection \<open>getPoints\<close>

text \<open>
  With \<open>steps = 0\<close> the step is \<^verbatim>\<open>Infinity\<close>: the loop pushes the point at \<open>u = 0\<close>
  and stops.
\<close>

lemma getPoints_zero: "getPoints pointFn 0 = Some [pointFn 0]"
proof -
  have "getPoints pointFn 0 = getPoints_loop pointFn PosInfinity (Num 0) []"
    by (simp add: getPoints_def js_recip_def)
  also have "\<dots> = getPoints_loop pointFn PosInfinity PosInfinity [pointFn 0]"
    by (subst getPoints_loop.simps) simp
  also have "\<dots> = Some [pointFn 0]"
    by (subst getPoints_loop.simps) simp
  finally show ?thesis .
qed

lemma getPoints_loop_from:
  assumes "0 < steps" "k \<le> Suc steps"
  shows "getPoints_loop pointFn (Num (1 / real steps)) (Num (real k * (1 / real steps))) pts =
           Some (pts @ map (\<lambda>j. pointFn (real j * (1 / real steps))) [k..<Suc steps])"
  using assms(2)
proof (induction "Suc steps - k" arbitrary: k pts)
  case 0
  then have k: "k = Suc steps" by simp
  have "\<not> real k * (1 / real steps) \<le> 1"
    using assms(1) by (simp add: k)
  then show ?case
    by (subst getPoints_loop.simps) (simp add: k)
next
  case (Suc n)
  then have k: "k \<le> steps" by simp
  have le: "real k * (1 / real steps) \<le> 1"
    using assms(1) k by simp
  have nxt: "real k * (1 / real steps) + 1 / real steps = real (Suc k) * (1 / real steps)"
    by (simp add: add_divide_distrib)
  have "getPoints_loop pointFn (Num (1 / real steps)) (Num (real k * (1 / real steps))) pts =
          getPoints_loop pointFn (Num (1 / real steps)) (Num (real (Suc k) * (1 / real steps)))
            (pts @ [pointFn (real k * (1 / real steps))])"
    by (subst getPoints_loop.simps) (simp only: jsnum.case le if_True js_add.simps nxt)
  also have "\<dots> = Some ((pts @ [pointFn (real k * (1 / real steps))]) @
                      map (\<lambda>j. pointFn (real j * (1 / real steps))) [Suc k..<Suc steps])"
    using Suc.hyps(2) k by (intro Suc.hyps(1)) simp_all
  also have "\<dots> = Some (pts @ map (\<lambda>j. pointFn (real j * (1 / real steps))) [k..<Suc steps])"
    using k by (simp add: upt_conv_Cons [of k] del: upt_Suc)
  finally show ?case .
qed

lemma getPoints_positive:
  assumes "0 < steps"
  shows "getPoints pointFn steps =
           Some (map (\<lambda>j. pointFn (real j * (1 / real steps))) [0..<Suc steps])"
  using getPoints_loop_from [OF assms, of 0 pointFn "[]"] assms
  by (simp add: getPoints_def js_recip_def)

lemma getPoints_positive_last:
  assumes "0 < steps"
  shows "\<exists>pts. getPoints pointFn steps = Some pts \<and> length pts = Suc steps \<and>
           hd pts = pointFn 0 \<and> last pts = pointFn 1"
proof -
  have "last (map (\<lambda>j. pointFn (real j * (1 / real steps))) [0..<Suc steps]) = pointFn 1"
    using assms by simp
  moreover have "hd (map (\<lambda>j. pointFn (real j * (1 / real steps))) [0..<Suc steps]) = pointFn 0"
    by (simp add: upt_conv_Cons del: upt_Suc)
  ultimately show ?thesis
    unfolding getPoints_positive [OF assms] by simp
qed

text \<open>
  C1 claims that the emitted sequence always ends with the evaluation at \<open>u = 1\<close>, also
  for \<open>steps = 0\<close>. The code does not do that: for the line from \<open>(0, 0)\<close> to
  \<open>(1, 0)\<close> with spacing \<open>2\<close>, \<open>steps\<close> is \<open>0\<close> and the only point emitted is the
  start \<open>(0, 0)\<close>; the endpoint \<open>(1, 0)\<close> at \<open>u = 1\<close> is not emitted. (For
  \<open>steps \<ge> 1\<close> and exact arithmetic, \<open>getPoints_positive_last\<close> above shows that the
  sequence has \<open>steps + 1\<close> points and ends at \<open>u = 1\<close>.)
\<close>

theorem getPoints_zero_steps_endpoint:
  "pointsForLine \<lparr>px = 0, py = 0\<rparr> \<lparr>px = 1, py = 0\<rparr> 2 = Some [\<lparr>px = 0, py = 0\<rparr>] \<and>
   getPoints (pointOnLine \<lparr>px = 0, py = 0\<rparr> \<lparr>px = 1, py = 0\<rparr>) 0 = Some [\<lparr>px = 0, py = 0\<rparr>] \<and>
   pointOnLine \<lparr>px = 0, py = 0\<rparr> \<lparr>px = 1, py = 0\<rparr> 1 = \<lparr>px = 1, py = 0\<rparr> \<and>
   \<lparr>px = 1, py = 0\<rparr> \<notin> set [\<lparr>px = 0, py = (0::real)\<rparr>]"
proof -
  have z: "pointOnLine \<lparr>px = 0, py = 0\<rparr> \<lparr>px = 1, py = 0\<rparr> 0 = \<lparr>px = 0, py = 0\<rparr>"
    by (simp add: pointOnLine_def calculateLineParameter_def)
  have s: "nat \<lfloor>distance \<lparr>px = 0, py = 0\<rparr> \<lparr>px = 1, py = 0\<rparr> / 2\<rfloor> = 0"
    by (simp add: distance_def)
  have "pointsForLine \<lparr>px = 0, py = 0\<rparr> \<lparr>px = 1, py = 0\<rparr> 2 = Some [\<lparr>px = 0, py = 0\<rparr>]"
    by (simp add: pointsForLine_def Let_def s getPoints_zero z)
  moreover have "getPoints (pointOnLine \<lparr>px = 0, py = 0\<rparr> \<lparr>px = 1, py = 0\<rparr>) 0 = Some [\<lparr>px = 0, py = 0\<rparr>]"
    by (simp add: getPoints_zero z)
  moreover have "pointOnLine \<lparr>px = 0, py = 0\<rparr> \<lparr>px = 1, py = 0\<rparr> 1 = \<lparr>px = 1, py = 0\<rparr>"
    by (simp add: pointOnLine_def calculateLineParameter_def)
  ultimately show ?thesis by simp
qed

end
